theory Spec2Isabelle
  imports Main "HOL-Library.Char_ord" "HOL-Library.List_Lexorder" "HOL-Library.Multiset"
begin

section \<open>Data model (src/types.ts, src/services/supabase.ts)\<close>

text \<open>
  \<^verbatim>\<open>interface Memory { id; date; mood; imageUrl; summary }\<close>, all strings. The field
  \<^verbatim>\<open>id\<close> is written \<open>id'\<close>, since \<open>id\<close> is the identity function of HOL. Strings are
  \<open>char list\<close>; the model's characters are bytes, JavaScript's are UTF-16 code units, and
  the two agree on ASCII text.
\<close>

record Memory =
  id' :: string
  date :: string
  mood :: string
  imageUrl :: string
  summary :: string

text \<open>
  \<^verbatim>\<open>interface CloudMemory { id; date; mood; image_url; summary; created_at? }\<close>, a row of
  the remote table. The fields carry the prefix \<open>c_\<close> where the name is taken by
  \<open>Memory\<close>.
\<close>

record CloudMemory =
  c_id :: string
  c_date :: string
  c_mood :: string
  image_url :: string
  c_summary :: string
  created_at :: "string option"

section \<open>JavaScript numbers and dates, as far as the code uses them\<close>

text \<open>
  A JavaScript number that is either NaN or an integer is an \<open>int option\<close>, \<open>None\<close>
  being NaN. \<open>Number_of\<close> is \<^verbatim>\<open>Number(s)\<close> on the strings the application creates
  (\<^verbatim>\<open>Date.now().toString()\<close>): a non-empty string of decimal digits is read as its
  value. Every other string is NaN in this model; JavaScript reads some of those as
  numbers too (a sign, a fraction, an exponent, a radix prefix, surrounding white space,
  the empty string), so the theorems below ask for digit-string ids wherever the numeric
  reading matters. A double holds every integer up to \<open>2 ^ 53\<close> exactly; above that
  \<^verbatim>\<open>Number\<close> rounds and the model does not, so the ids are kept below it where the order
  of the numbers matters (\<open>safe_ids\<close>), and a date is invalid from \<open>8.64e15\<close> on anyway.
\<close>

definition is_digit :: "char \<Rightarrow> bool" where
  "is_digit c \<longleftrightarrow> 48 \<le> (of_char c :: nat) \<and> (of_char c :: nat) \<le> 57"

definition digit_value :: "char \<Rightarrow> int" where
  "digit_value c = int (of_char c) - 48"

fun digits_value :: "int \<Rightarrow> string \<Rightarrow> int option" where
  "digits_value acc [] = Some acc"
| "digits_value acc (c # cs) =
     (if is_digit c then digits_value (10 * acc + digit_value c) cs else None)"

definition Number_of :: "string \<Rightarrow> int option" where
  "Number_of s = (if s = [] then None else digits_value 0 s)"

text \<open>\<^verbatim>\<open>a - b\<close> and \<^verbatim>\<open>a === b\<close> on such numbers: NaN propagates, and NaN equals nothing.\<close>

definition num_sub :: "int option \<Rightarrow> int option \<Rightarrow> int option" where
  "num_sub a b = (case a of None \<Rightarrow> None | Some x \<Rightarrow> (case b of None \<Rightarrow> None | Some y \<Rightarrow> Some (x - y)))"

definition num_eq :: "int option \<Rightarrow> int option \<Rightarrow> bool" where
  "num_eq a b = (case a of None \<Rightarrow> False | Some x \<Rightarrow> (case b of None \<Rightarrow> False | Some y \<Rightarrow> x = y))"

text \<open>
  The time value of a \<^verbatim>\<open>Date\<close> is an integer of milliseconds since the epoch, or NaN
  (an invalid date). \<open>msPerDay\<close>, \<open>Day\<close>, \<open>TimeClip\<close>, \<open>LocalTime\<close> and \<open>UTC\<close> are the
  abstract operations of ECMAScript. The time zone of the host is what ECMAScript calls
  \<open>LocalTZA\<close>, in milliseconds: \<open>LocalTZA_utc z t\<close> is the offset in force at the UTC
  instant \<open>t\<close>, and \<open>LocalTZA_local z t\<close> the offset by which the local time \<open>t\<close> is read
  back into UTC (for a local time that a change of offset skips or repeats, the offset
  before the change). The zone and the clock are not in the code: they come with the
  machine it runs on.
\<close>

definition msPerDay :: int where
  "msPerDay = 86400000"

definition Day :: "int \<Rightarrow> int" where
  "Day t = t div msPerDay"

definition TimeClip :: "int \<Rightarrow> int option" where
  "TimeClip t = (if \<bar>t\<bar> \<le> 8640000000000000 then Some t else None)"

record zone =
  LocalTZA_utc :: "int \<Rightarrow> int"
  LocalTZA_local :: "int \<Rightarrow> int"

definition LocalTime :: "zone \<Rightarrow> int \<Rightarrow> int" where
  "LocalTime z t = t + LocalTZA_utc z t"

definition UTC :: "zone \<Rightarrow> int \<Rightarrow> int" where
  "UTC z t = t - LocalTZA_local z t"

text \<open>\<^verbatim>\<open>new Date(value)\<close> for a number: the time value of the new date.\<close>

definition new_Date :: "int option \<Rightarrow> int option" where
  "new_Date v = (case v of None \<Rightarrow> None | Some t \<Rightarrow> TimeClip t)"

text \<open>
  \<^verbatim>\<open>d.setHours(0, 0, 0, 0)\<close>: the time value of \<open>d\<close> afterwards, local midnight of the
  local calendar day of \<open>d\<close>. (\<open>MakeDate (Day t) (MakeTime 0 0 0 0) = Day t * msPerDay\<close>.)
\<close>

definition setHours0 :: "zone \<Rightarrow> int option \<Rightarrow> int option" where
  "setHours0 z d =
     (case d of None \<Rightarrow> None
      | Some t \<Rightarrow> TimeClip (UTC z (Day (LocalTime z t) * msPerDay)))"

section \<open>The streak calculator (src/App.tsx, calculateStreak)\<close>

definition oneDay :: int where
  "oneDay = 24 * 60 * 60 * 1000"

text \<open>
  The \<^verbatim>\<open>for\<close> loop from index 1: \<open>prev\<close> is \<^verbatim>\<open>memories[i - 1]\<close>, the head of the list
  is \<^verbatim>\<open>memories[i]\<close> (written \<open>curr'\<close>, as \<open>curr\<close> is a constant of HOL), and
  \<open>currentStreak\<close> is the counter. \<^verbatim>\<open>continue\<close> goes on with the same counter, \<^verbatim>\<open>break\<close>
  returns it.
\<close>

fun streak_loop :: "zone \<Rightarrow> nat \<Rightarrow> Memory \<Rightarrow> Memory list \<Rightarrow> nat" where
  "streak_loop z currentStreak prev [] = currentStreak"
| "streak_loop z currentStreak prev (curr' # rest) =
     (let prevD = setHours0 z (new_Date (Number_of (id' prev)));
          currD = setHours0 z (new_Date (Number_of (id' curr')));
          diff = num_sub prevD currD
      in if num_eq diff (Some oneDay) then streak_loop z (currentStreak + 1) curr' rest
         else if num_eq diff (Some 0) then streak_loop z currentStreak curr' rest
         else currentStreak)"

text \<open>\<open>now\<close> is the time value of \<^verbatim>\<open>new Date()\<close>, the clock when the function runs.\<close>

definition calculateStreak :: "zone \<Rightarrow> int \<Rightarrow> Memory list \<Rightarrow> nat" where
  "calculateStreak z now memories =
     (case memories of
        [] \<Rightarrow> 0
      | m0 # rest \<Rightarrow>
          (let today = setHours0 z (Some now);
               latestDate = setHours0 z (new_Date (Number_of (id' m0)))
           in if num_eq latestDate today then streak_loop z 1 m0 rest
              else if num_eq latestDate (num_sub today (Some oneDay)) then streak_loop z 1 m0 rest
              else 0))"

text \<open>The calendar day of an instant in a zone, as a count of local days since the epoch.\<close>

definition localDay :: "zone \<Rightarrow> int \<Rightarrow> int" where
  "localDay z t = Day (LocalTime z t)"

text \<open>An entry whose id is a digit string that makes a valid date, read as that instant.\<close>

definition instant_of :: "Memory \<Rightarrow> int option" where
  "instant_of m = new_Date (Number_of (id' m))"

text \<open>A Memory with a given id; the other fields play no part in the streak.\<close>

definition entry :: "string \<Rightarrow> Memory" where
  "entry i = \<lparr>id' = i, date = [], mood = [], imageUrl = [], summary = []\<rparr>"

text \<open>A zone with one offset at all times, and Central European time around the start of
  summer time on 29 March 2026, 01:00 UTC (02:00 local becomes 03:00).\<close>

definition fixed_zone :: "int \<Rightarrow> zone" where
  "fixed_zone off = \<lparr>LocalTZA_utc = (\<lambda>t. off), LocalTZA_local = (\<lambda>t. off)\<rparr>"

definition berlin_2026 :: zone where
  "berlin_2026 =
     \<lparr>LocalTZA_utc = (\<lambda>t. if t < 1774746000000 then 3600000 else 7200000),
      LocalTZA_local = (\<lambda>t. if t < 1774746000000 + 7200000 then 3600000 else 7200000)\<rparr>"

text \<open>
  The calendar days of a list of entries, newest first: \<open>consecutive_days z d ms\<close> says
  that the entries of \<open>ms\<close> have valid dates on the days \<open>d\<close>, \<open>d - 1\<close>, \<open>d - 2\<close>, ... in
  this order, and \<open>days_of\<close> lists the day of every entry (\<open>None\<close> for an invalid date).
\<close>

fun consecutive_days :: "zone \<Rightarrow> int \<Rightarrow> Memory list \<Rightarrow> bool" where
  "consecutive_days z d [] = True"
| "consecutive_days z d (m # ms) =
     (case instant_of m of
        None \<Rightarrow> False
      | Some t \<Rightarrow> localDay z t = d \<and> consecutive_days z (d - 1) ms)"

definition days_of :: "zone \<Rightarrow> Memory list \<Rightarrow> int option list" where
  "days_of z ms = map (\<lambda>m. map_option (localDay z) (instant_of m)) ms"

section \<open>The local record store (src/services/db.ts: IndexedDB store \<open>memories\<close>)\<close>

text \<open>
  The object store has \<^verbatim>\<open>keyPath: 'id'\<close>: it holds one record per key, and \<^verbatim>\<open>getAll\<close>
  returns the records in ascending key order (strings compare by code unit). The store
  is the list of its records in that order. \<open>idb_put\<close> is \<^verbatim>\<open>db.put\<close> (insert, or replace
  the record with the same key), \<open>idb_delete\<close> is \<^verbatim>\<open>db.delete\<close> (no record, no effect).
\<close>

fun idb_insert :: "Memory \<Rightarrow> Memory list \<Rightarrow> Memory list" where
  "idb_insert m [] = [m]"
| "idb_insert m (x # xs) = (if id' m < id' x then m # x # xs else x # idb_insert m xs)"

definition idb_delete :: "string \<Rightarrow> Memory list \<Rightarrow> Memory list" where
  "idb_delete k xs = filter (\<lambda>x. id' x \<noteq> k) xs"

definition idb_put :: "Memory \<Rightarrow> Memory list \<Rightarrow> Memory list" where
  "idb_put m xs = idb_insert m (idb_delete (id' m) xs)"

definition idb_getAll :: "Memory list \<Rightarrow> Memory list" where
  "idb_getAll xs = xs"

text \<open>The invariant of the representation: ascending keys, each key once.\<close>

definition idb_wf :: "Memory list \<Rightarrow> bool" where
  "idb_wf xs \<longleftrightarrow> sorted (map id' xs) \<and> distinct (map id' xs)"

section \<open>\<^verbatim>\<open>Array.prototype.sort\<close> with a comparator\<close>

text \<open>
  \<^verbatim>\<open>memories.sort((a, b) => Number(b.id) - Number(a.id))\<close>. ECMAScript reads a NaN
  from the comparator as \<open>+0\<close> and sorts stably; \<open>Array_sort\<close> is the stable insertion
  sort. For a consistent comparator every stable sort returns this list; when an id is
  not a number the comparator is not consistent and ECMAScript leaves the order open
  (the result is still a permutation), of which the model shows one.
\<close>

definition compare_ids :: "Memory \<Rightarrow> Memory \<Rightarrow> int option" where
  "compare_ids a b = num_sub (Number_of (id' b)) (Number_of (id' a))"

definition SortCompare :: "('a \<Rightarrow> 'a \<Rightarrow> int option) \<Rightarrow> 'a \<Rightarrow> 'a \<Rightarrow> int" where
  "SortCompare comparefn x y = (case comparefn x y of None \<Rightarrow> 0 | Some v \<Rightarrow> v)"

fun sort_insert :: "('a \<Rightarrow> 'a \<Rightarrow> int option) \<Rightarrow> 'a \<Rightarrow> 'a list \<Rightarrow> 'a list" where
  "sort_insert comparefn x [] = [x]"
| "sort_insert comparefn x (y # ys) =
     (if SortCompare comparefn x y \<le> 0 then x # y # ys else y # sort_insert comparefn x ys)"

fun Array_sort :: "('a \<Rightarrow> 'a \<Rightarrow> int option) \<Rightarrow> 'a list \<Rightarrow> 'a list" where
  "Array_sort comparefn [] = []"
| "Array_sort comparefn (x # xs) = sort_insert comparefn x (Array_sort comparefn xs)"

section \<open>The remote record store (src/services/supabase.ts)\<close>

text \<open>
  The state the services work on: whether IndexedDB can be opened and used (\<^verbatim>\<open>getDB\<close>
  and the calls on it reject otherwise), the local object store, the configured key
  (\<^verbatim>\<open>supabaseAnonKey\<close>, empty when unset) and the rows of the remote table \<open>memories\<close>.
  The application runs in the states whose key is not empty: \<^verbatim>\<open>db.ts\<close> imports
  \<^verbatim>\<open>supabase.ts\<close>, which does not load without a key (see \<open>createClient\<close> below).
\<close>

record world =
  idb_ok :: bool
  idb :: "Memory list"
  supabaseAnonKey :: string
  cloud :: "CloudMemory list"

datatype error = IDBFailure | CloudFailure | ImportFailure

text \<open>
  What the network and the server do with one request is given from outside: an upsert is
  applied, answered with an error object, or the call throws (and is then taken not to
  have reached the table); a select returns the rows, returns no error and no data,
  returns an error object, or throws. \<open>CloudFailure\<close> stands for whatever the client
  throws.
\<close>

datatype upsert_outcome = Upserted | UpsertError | UpsertThrows

datatype select_outcome = Selected | SelectedNull | SelectError | SelectThrows

text \<open>
  The row sent by \<^verbatim>\<open>upsert\<close>. \<open>created_at\<close> is assigned by the server and read by no
  code of the application: the model leaves it empty on insert and keeps it on replace.
\<close>

definition row_of :: "Memory \<Rightarrow> CloudMemory" where
  "row_of memory =
     \<lparr>c_id = id' memory, c_date = date memory, c_mood = mood memory,
      image_url = imageUrl memory, c_summary = summary memory, created_at = None\<rparr>"

fun cloud_upsert :: "CloudMemory \<Rightarrow> CloudMemory list \<Rightarrow> CloudMemory list" where
  "cloud_upsert r [] = [r]"
| "cloud_upsert r (x # xs) =
     (if c_id x = c_id r then r\<lparr>created_at := created_at x\<rparr> # xs else x # cloud_upsert r xs)"

text \<open>\<^verbatim>\<open>.select('*').order('id', { ascending: false })\<close>, ids compared as text.\<close>

definition cloud_select :: "CloudMemory list \<Rightarrow> CloudMemory list" where
  "cloud_select rows = rev (sort_key c_id rows)"

text \<open>
  \<^verbatim>\<open>export const supabase = createClient(supabaseUrl, supabaseAnonKey)\<close> runs when the
  module is loaded. \<open>createClient\<close> belongs to the client library: it throws on an empty
  key, so with the key unset the import of \<^verbatim>\<open>supabase.ts\<close> fails and nothing of the module
  runs. The two functions of the module start from the client made at import; the test
  \<^verbatim>\<open>if (!supabaseAnonKey)\<close> in their bodies is kept as it is written, and can never hold
  once the client exists. A state with an empty key stays in the model only as this
  failure; it is not a state of the running application.
\<close>

definition createClient :: "string \<Rightarrow> error + unit" where
  "createClient supabaseKey = (if supabaseKey = [] then Inl ImportFailure else Inr ())"

text \<open>
  \<open>saveMemoryToCloud\<close> returns a boolean and catches whatever the client throws; its
  result is a sum all the same, so that the callers' own handlers have their branch.
\<close>

definition saveMemoryToCloud ::
  "upsert_outcome \<Rightarrow> Memory \<Rightarrow> world \<Rightarrow> (error + bool) \<times> world" where
  "saveMemoryToCloud net memory w =
     (case createClient (supabaseAnonKey w) of
        Inl e \<Rightarrow> (Inl e, w)
      | Inr supabase \<Rightarrow>
          (if supabaseAnonKey w = [] then (Inr False, w)
           else (case net of
                   Upserted \<Rightarrow> (Inr True, w\<lparr>cloud := cloud_upsert (row_of memory) (cloud w)\<rparr>)
                 | UpsertError \<Rightarrow> (Inr False, w)
                 | UpsertThrows \<Rightarrow> (Inr False, w))))"

definition getMemoriesFromCloud :: "select_outcome \<Rightarrow> world \<Rightarrow> error + CloudMemory list" where
  "getMemoriesFromCloud net w =
     (case createClient (supabaseAnonKey w) of
        Inl e \<Rightarrow> Inl e
      | Inr supabase \<Rightarrow>
          (if supabaseAnonKey w = [] then Inr []
           else (case net of
                   Selected \<Rightarrow> Inr (cloud_select (cloud w))
                 | SelectedNull \<Rightarrow> Inr []
                 | SelectError \<Rightarrow> Inr []
                 | SelectThrows \<Rightarrow> Inr [])))"

section \<open>The synchronizer (src/services/db.ts)\<close>

definition getDB :: "world \<Rightarrow> error + Memory list" where
  "getDB w = (if idb_ok w then Inr (idb w) else Inl IDBFailure)"


text \<open>The object literal built for each row of the cloud result.\<close>

definition toMemory :: "CloudMemory \<Rightarrow> Memory" where
  "toMemory m =
     \<lparr>id' = c_id m, date = c_date m, mood = c_mood m, imageUrl = image_url m,
      summary = c_summary m\<rparr>"

text \<open>
  \<open>getMemories\<close>: the \<^verbatim>\<open>try\<close> block returns the translated cloud rows when there are
  any; otherwise, and when the block throws, control reaches the local fallback.
\<close>

definition getMemories :: "select_outcome \<Rightarrow> world \<Rightarrow> error + Memory list" where
  "getMemories net w =
     (let fromCloud =
            (case getMemoriesFromCloud net w of
               Inr cloudMemories \<Rightarrow>
                 if length cloudMemories > 0 then Some (map toMemory cloudMemories) else None
             | Inl err \<Rightarrow> None)
      in case fromCloud of
           Some memories \<Rightarrow> Inr memories
         | None \<Rightarrow>
             (case getDB w of
                Inl e \<Rightarrow> Inl e
              | Inr db \<Rightarrow> Inr (Array_sort compare_ids (idb_getAll db))))"

definition deleteMemory :: "string \<Rightarrow> world \<Rightarrow> error + world" where
  "deleteMemory k w =
     (case getDB w of
        Inl e \<Rightarrow> Inl e
      | Inr db \<Rightarrow> Inr (w\<lparr>idb := idb_delete k db\<rparr>))"

text \<open>
  \<open>syncLocalToCloud\<close>: the \<^verbatim>\<open>for ... of\<close> loop over \<open>localMemories\<close>; \<open>net i\<close> is what
  happens to the request for the \<open>i\<close>-th entry.
\<close>

record sync_result =
  synced :: nat
  failed :: nat

fun sync_loop ::
  "(nat \<Rightarrow> upsert_outcome) \<Rightarrow> nat \<Rightarrow> Memory list \<Rightarrow> sync_result \<Rightarrow> world \<Rightarrow>
     sync_result \<times> world" where
  "sync_loop net i [] r w = (r, w)"
| "sync_loop net i (memory # rest) r w =
     (case saveMemoryToCloud (net i) memory w of
        (Inr success, w') \<Rightarrow>
          if success then sync_loop net (i + 1) rest (r\<lparr>synced := synced r + 1\<rparr>) w'
          else sync_loop net (i + 1) rest (r\<lparr>failed := failed r + 1\<rparr>) w'
      | (Inl err, w') \<Rightarrow> sync_loop net (i + 1) rest (r\<lparr>failed := failed r + 1\<rparr>) w')"

definition syncLocalToCloud ::
  "(nat \<Rightarrow> upsert_outcome) \<Rightarrow> world \<Rightarrow> error + sync_result \<times> world" where
  "syncLocalToCloud net w =
     (case getDB w of
        Inl e \<Rightarrow> Inl e
      | Inr db \<Rightarrow> Inr (sync_loop net 0 (idb_getAll db) \<lparr>synced = 0, failed = 0\<rparr> w))"

section \<open>CSV export (src/services/db.ts, exportMemoriesToCSV)\<close>

definition dquote :: char where
  "dquote = CHR 0x22"

text \<open>\<^verbatim>\<open>parts.join(sep)\<close>, \<^verbatim>\<open>s.replace(/"/g, '""')\<close> and \<^verbatim>\<open>s.substring(0, 100)\<close>.\<close>

fun join :: "string \<Rightarrow> string list \<Rightarrow> string" where
  "join sep [] = []"
| "join sep [x] = x"
| "join sep (x # y # ys) = x @ sep @ join sep (y # ys)"

definition double_quotes :: "string \<Rightarrow> string" where
  "double_quotes s = concat (map (\<lambda>c. if c = dquote then [dquote, dquote] else [c]) s)"

definition substring_0_100 :: "string \<Rightarrow> string" where
  "substring_0_100 s = take 100 s"

definition headers :: "string list" where
  "headers = [''Date'', ''Mood'', ''Summary'', ''Image URL'']"

text \<open>The four template literals of one row, and the row. (\<^verbatim>\<open>m.date || ''\<close> is \<open>date m\<close>
  for a string.)\<close>

definition date_field :: "Memory \<Rightarrow> string" where
  "date_field m = [dquote] @ date m @ [dquote]"

definition mood_field :: "Memory \<Rightarrow> string" where
  "mood_field m = [dquote] @ double_quotes (mood m) @ [dquote]"

definition summary_field :: "Memory \<Rightarrow> string" where
  "summary_field m = [dquote] @ double_quotes (summary m) @ [dquote]"

definition image_field :: "Memory \<Rightarrow> string" where
  "image_field m = [dquote] @ substring_0_100 (imageUrl m) @ ''...'' @ [dquote]"

definition csv_row :: "Memory \<Rightarrow> string" where
  "csv_row m = join '','' [date_field m, mood_field m, summary_field m, image_field m]"

definition csv_lines :: "Memory list \<Rightarrow> string list" where
  "csv_lines memories = join '','' headers # map csv_row memories"

text \<open>\<open>None\<close> is the \<^verbatim>\<open>null\<close> returned when there is nothing to export.\<close>

definition exportMemoriesToCSV :: "select_outcome \<Rightarrow> world \<Rightarrow> error + string option" where
  "exportMemoriesToCSV net w =
     (case getMemories net w of
        Inl e \<Rightarrow> Inl e
      | Inr memories \<Rightarrow>
          if length memories = 0 then Inr None
          else Inr (Some (join [CHR 0x0A] (csv_lines memories))))"

section \<open>Notions the properties are stated with\<close>


definition push_succeeds :: "world \<Rightarrow> upsert_outcome \<Rightarrow> bool" where
  "push_succeeds w out \<longleftrightarrow> supabaseAnonKey w \<noteq> [] \<and> out = Upserted"

text \<open>
  The numeric value of an id, for the entries that have one. A list is sorted by id
  descending when every id has a number and the numbers never increase along the list;
  its ids are safe when each is a number that a double holds exactly.
\<close>

definition has_number :: "Memory \<Rightarrow> bool" where
  "has_number m \<longleftrightarrow> Number_of (id' m) \<noteq> None"

definition id_number :: "Memory \<Rightarrow> int" where
  "id_number m = (case Number_of (id' m) of None \<Rightarrow> 0 | Some n \<Rightarrow> n)"

definition ids_descending :: "Memory list \<Rightarrow> bool" where
  "ids_descending ms \<longleftrightarrow>
     list_all has_number ms \<and> sorted_wrt (\<lambda>a b. id_number b \<le> id_number a) ms"


text \<open>Entries and states of the stores, for the concrete instances below.\<close>

definition memory_9 :: Memory where
  "memory_9 = \<lparr>id' = ''9'', date = ''Jan 1'', mood = ''calm'', imageUrl = ''data:a'', summary = ''first''\<rparr>"

definition memory_10 :: Memory where
  "memory_10 = \<lparr>id' = ''10'', date = ''Jan 1'', mood = ''glad'', imageUrl = ''data:b'', summary = ''second''\<rparr>"



text \<open>
  Three entries as the application writes them; the remote table holds the two newer
  ones, the local store all three.
\<close>

definition entry_sat :: Memory where
  "entry_sat =
     \<lparr>id' = ''1774695600000'', date = ''Mar 28'', mood = ''tired'',
      imageUrl = ''data:image/png;base64,c2F0'', summary = ''Long week.''\<rparr>"

definition entry_sun :: Memory where
  "entry_sun =
     \<lparr>id' = ''1774778400000'', date = ''Mar 29'', mood = ''sleepy'',
      imageUrl = ''data:image/png;base64,c3Vu'', summary = ''A quiet moment.''\<rparr>"

definition entry_mon :: Memory where
  "entry_mon =
     \<lparr>id' = ''1774854000000'', date = ''Mar 30'', mood = ''sunny'',
      imageUrl = ''data:image/png;base64,bW9u'', summary = ''Walk in the park.''\<rparr>"

definition world_replace :: world where
  "world_replace =
     \<lparr>idb_ok = True, idb = [entry_sat, entry_sun, entry_mon], supabaseAnonKey = ''anon-key'',
      cloud = [row_of entry_sun, row_of entry_mon]\<rparr>"

definition world_partial :: world where
  "world_partial =
     \<lparr>idb_ok = True, idb = [memory_10, memory_9], supabaseAnonKey = ''anon-key'',
      cloud = [row_of memory_9]\<rparr>"

text \<open>
  Two entries are on the same calendar day when both have a valid date and the local
  day numbers agree. \<open>midnight_of\<close> is what the code computes for an entry: the date of
  its id after \<^verbatim>\<open>setHours(0, 0, 0, 0)\<close>.
\<close>

definition same_day :: "zone \<Rightarrow> Memory \<Rightarrow> Memory \<Rightarrow> bool" where
  "same_day z a b =
     (case instant_of a of
        None \<Rightarrow> False
      | Some s \<Rightarrow> (case instant_of b of None \<Rightarrow> False | Some t \<Rightarrow> localDay z s = localDay z t))"

definition midnight_of :: "zone \<Rightarrow> Memory \<Rightarrow> int option" where
  "midnight_of z m = setHours0 z (instant_of m)"

text \<open>
  Two properties of civil time zones. The calendar never runs backwards: a later
  instant is never on an earlier local day (a zone breaks this only by setting its
  clocks back across midnight). The offset never moves by a whole day or more (a zone
  breaks this only by changing its side of the date line). Both hold for a fixed
  offset and for \<open>berlin_2026\<close>.
\<close>

definition days_never_go_back :: "zone \<Rightarrow> bool" where
  "days_never_go_back z \<longleftrightarrow> (\<forall>s t. s \<le> t \<longrightarrow> localDay z s \<le> localDay z t)"

definition offsets_within_a_day :: "zone \<Rightarrow> bool" where
  "offsets_within_a_day z \<longleftrightarrow> (\<forall>a b. LocalTZA_local z a - LocalTZA_local z b < msPerDay)"

text \<open>
  Reading a CSV row of quoted fields, as a spreadsheet does: every field is wrapped in
  double quotes, a double quote inside a field is written twice, and fields are
  separated by commas. \<open>csv_scan\<close> goes through the row with the fields read so far and
  the content of the current one; \<open>csv_fields row\<close> is the list of the contents, or
  \<open>None\<close> when the row is not of this form.
\<close>

datatype csv_mode = FieldStart | InQuotes | AfterQuote

fun csv_scan :: "csv_mode \<Rightarrow> string list \<Rightarrow> string \<Rightarrow> string \<Rightarrow> string list option" where
  "csv_scan FieldStart fs cur [] = None"
| "csv_scan FieldStart fs cur (c # cs) =
     (if c = dquote then csv_scan InQuotes fs [] cs else None)"
| "csv_scan InQuotes fs cur [] = None"
| "csv_scan InQuotes fs cur (c # cs) =
     (if c = dquote then csv_scan AfterQuote fs cur cs else csv_scan InQuotes fs (cur @ [c]) cs)"
| "csv_scan AfterQuote fs cur [] = Some (fs @ [cur])"
| "csv_scan AfterQuote fs cur (c # cs) =
     (if c = dquote then csv_scan InQuotes fs (cur @ [dquote]) cs
      else if c = CHR '','' then csv_scan FieldStart (fs @ [cur]) [] cs
      else None)"

definition csv_fields :: "string \<Rightarrow> string list option" where
  "csv_fields row = csv_scan FieldStart [] [] row"

text \<open>The preview of the image that the fourth column is to show.\<close>

definition preview :: "Memory \<Rightarrow> string" where
  "preview m = take 100 (imageUrl m) @ ''...''"

text \<open>
  A remote row whose image URL holds a double quote, in a state where the application
  runs; and an entry as the application writes it, with a mood the user typed with
  quotes and a data URL of 120 characters.
\<close>

definition row_quote :: CloudMemory where
  "row_quote =
     \<lparr>c_id = ''1774854000000'', c_date = ''Mar 30'', c_mood = ''sunny'',
      image_url = ''https://img.test/a'' @ [dquote] @ ''b.png'', c_summary = ''Walk.'',
      created_at = None\<rparr>"

definition world_quote :: world where
  "world_quote =
     \<lparr>idb_ok = True, idb = [], supabaseAnonKey = ''anon-key'', cloud = [row_quote]\<rparr>"

definition memory_said :: Memory where
  "memory_said =
     \<lparr>id' = ''1774854000000'', date = ''Mar 30'',
      mood = ''so '' @ [dquote] @ ''fine'' @ [dquote],
      imageUrl = ''data:image/png;base64,'' @ replicate 98 (CHR ''A''),
      summary = ''A quiet moment.''\<rparr>"

definition world_said :: world where
  "world_said =
     \<lparr>idb_ok = True, idb = [memory_said], supabaseAnonKey = ''anon-key'', cloud = []\<rparr>"

text \<open>
  A run of days: \<open>run_last_day z d ms\<close> follows entries that are each on the day of the
  entry before (\<open>d\<close> for the first) or on the day before that, and returns the day of
  the last one. \<open>gap_after z d rest\<close>: the list ends, or goes on with an entry at least
  two days before \<open>d\<close> (or with an invalid date).
\<close>

fun run_last_day :: "zone \<Rightarrow> int \<Rightarrow> Memory list \<Rightarrow> int option" where
  "run_last_day z d [] = Some d"
| "run_last_day z d (m # ms) =
     (case instant_of m of
        None \<Rightarrow> None
      | Some t \<Rightarrow>
          if localDay z t = d \<or> localDay z t = d - 1 then run_last_day z (localDay z t) ms
          else None)"

definition gap_after :: "zone \<Rightarrow> int \<Rightarrow> Memory list \<Rightarrow> bool" where
  "gap_after z d rest =
     (case rest of
        [] \<Rightarrow> True
      | g # _ \<Rightarrow> (case instant_of g of None \<Rightarrow> True | Some t \<Rightarrow> localDay z t + 2 \<le> d))"

section \<open>The streak across a change of the zone's offset\<close>

text \<open>
  C1. In Central European time at 10:00 on 30 March 2026, an entry of 09:00 that day and
  an entry of 12:00 on 29 March lie on today and yesterday, two consecutive calendar
  days with the newest on today, and \<open>calculateStreak\<close> returns 1, not the length 2 of the
  list: 29 March lasted 23 hours, and the loop asks for midnights exactly \<open>oneDay\<close> apart.
\<close>

theorem calculateStreak_short_across_offset_change:
  "consecutive_days berlin_2026 (localDay berlin_2026 1774857600000)
     [entry ''1774854000000'', entry ''1774778400000''] \<and>
   calculateStreak berlin_2026 1774857600000
     [entry ''1774854000000'', entry ''1774778400000''] = 1 \<and>
   length [entry ''1774854000000'', entry ''1774778400000''] = 2"
  by code_simp

text \<open>
  C4. Same zone and clock, entries on the days D, D - 1, D - 1 and D - 3 (30, 29, 29 and
  27 March 2026), ids descending: the newest is of today, the next two continue the run
  down to D - 1, then the day D - 2 is skipped. \<open>calculateStreak\<close> returns 1, where the two
  consecutive days before the gap would give 2.
\<close>

theorem calculateStreak_gap_example_across_offset_change:
  "localDay berlin_2026 1774857600000 = 20542 \<and>
   days_of berlin_2026
     [entry ''1774854000000'', entry ''1774778400000'', entry ''1774764000000'',
      entry ''1774609200000''] = [Some 20542, Some 20541, Some 20541, Some 20539] \<and>
   ids_descending
     [entry ''1774854000000'', entry ''1774778400000'', entry ''1774764000000'',
      entry ''1774609200000''] \<and>
   run_last_day berlin_2026 20542 [entry ''1774778400000'', entry ''1774764000000''] =
     Some 20541 \<and>
   gap_after berlin_2026 20541 [entry ''1774609200000''] \<and>
   calculateStreak berlin_2026 1774857600000
     [entry ''1774854000000'', entry ''1774778400000'', entry ''1774764000000'',
      entry ''1774609200000''] = 1"
  by code_simp

section \<open>Sorting by id\<close>








section \<open>The local store\<close>

lemma set_idb_insert: "set (idb_insert m xs) = insert m (set xs)"
  by (induction xs) auto


lemma idb_wf_delete: "idb_wf xs \<Longrightarrow> idb_wf (idb_delete k xs)"
  by (simp add: idb_wf_def idb_delete_def sorted_wrt_filter sorted_map distinct_map_filter)

lemma idb_wf_insert:
  "idb_wf xs \<Longrightarrow> id' m \<notin> id' ` set xs \<Longrightarrow> idb_wf (idb_insert m xs)"
proof (induction xs)
  case Nil
  then show ?case by (simp add: idb_wf_def)
next
  case (Cons x xs)
  then have "idb_wf xs" and "id' m \<notin> id' ` set xs" and "id' m \<noteq> id' x"
    by (auto simp: idb_wf_def)
  with Cons show ?case
    by (auto simp: idb_wf_def set_idb_insert)
qed

lemma idb_wf_put:
  assumes "idb_wf xs"
  shows "idb_wf (idb_put m xs)"
proof -
  have "idb_wf (idb_delete (id' m) xs)"
    using assms by (rule idb_wf_delete)
  moreover have "id' m \<notin> id' ` set (idb_delete (id' m) xs)"
    by (auto simp: idb_delete_def)
  ultimately show ?thesis
    unfolding idb_put_def by (rule idb_wf_insert)
qed

section \<open>Reading: remote first, local fallback\<close>

lemma saveMemoryToCloud_frame:
  "saveMemoryToCloud net m w = (res, w') \<Longrightarrow>
     idb_ok w' = idb_ok w \<and> idb w' = idb w \<and> supabaseAnonKey w' = supabaseAnonKey w \<and>
     (push_succeeds w net \<longrightarrow> res = Inr True) \<and>
     (\<not> push_succeeds w net \<longrightarrow> res = Inr False \<or> res = Inl ImportFailure)"
  by (auto simp: saveMemoryToCloud_def createClient_def push_succeeds_def
      split: if_splits upsert_outcome.splits)


lemma set_cloud_select: "set (cloud_select rows) = set rows"
  by (simp add: cloud_select_def)

text \<open>
  C2. When the remote read returns rows, and at least one, \<open>getMemories\<close> returns one
  entry per row, in the order of the rows, with the five fields of the row: \<open>id\<close>,
  \<open>date\<close>, \<open>mood\<close>, \<open>summary\<close> under their names and \<open>image_url\<close> as \<open>imageUrl\<close>. An
  entry of the local store whose id no remote row has is not in the result: the local
  store is not consulted.
\<close>

theorem getMemories_full_replace:
  assumes "getMemoriesFromCloud net w = Inr rows" and "rows \<noteq> []"
  shows "\<exists>ms. getMemories net w = Inr ms \<and>
           map id' ms = map c_id rows \<and>
           map date ms = map c_date rows \<and>
           map mood ms = map c_mood rows \<and>
           map imageUrl ms = map image_url rows \<and>
           map summary ms = map c_summary rows \<and>
           (\<forall>e \<in> set (idb w). id' e \<notin> c_id ` set rows \<longrightarrow> e \<notin> set ms)"
proof -
  from assms have g: "getMemories net w = Inr (map toMemory rows)"
    by (simp add: getMemories_def)
  have "e \<notin> set (map toMemory rows)" if "id' e \<notin> c_id ` set rows" for e
    using that by (auto simp: toMemory_def)
  with g show ?thesis
    by (simp add: toMemory_def comp_def)
qed

text \<open>
  The instance: the remote table holds the entries of 29 and 30 March, the local store
  these and the entry of 28 March; the select succeeds. The result is the two remote
  entries, newest first, field by field, and the entry of 28 March is missing.
\<close>

theorem getMemories_full_replace_witness:
  "getMemoriesFromCloud Selected world_replace = Inr [row_of entry_mon, row_of entry_sun] \<and>
   [row_of entry_mon, row_of entry_sun] \<noteq> [] \<and>
   getMemories Selected world_replace = Inr [entry_mon, entry_sun] \<and>
   entry_sat \<in> set (idb world_replace) \<and>
   id' entry_sat \<notin> c_id ` set [row_of entry_mon, row_of entry_sun] \<and>
   entry_sat \<notin> set [entry_mon, entry_sun]"
proof -
  have rows: "getMemoriesFromCloud Selected world_replace =
                Inr [row_of entry_mon, row_of entry_sun]"
    by code_simp
  have ne: "[row_of entry_mon, row_of entry_sun] \<noteq> []" by simp
  have loc: "entry_sat \<in> set (idb world_replace)"
    by (simp add: world_replace_def)
  have other: "id' entry_sat \<notin> c_id ` set [row_of entry_mon, row_of entry_sun]"
    by (simp add: row_of_def entry_sat_def entry_sun_def entry_mon_def)
  from getMemories_full_replace [OF rows ne]
  obtain ms where g: "getMemories Selected world_replace = Inr ms"
    and i: "map id' ms = map c_id [row_of entry_mon, row_of entry_sun]"
    and d: "map date ms = map c_date [row_of entry_mon, row_of entry_sun]"
    and m: "map mood ms = map c_mood [row_of entry_mon, row_of entry_sun]"
    and u: "map imageUrl ms = map image_url [row_of entry_mon, row_of entry_sun]"
    and t: "map summary ms = map c_summary [row_of entry_mon, row_of entry_sun]"
    and absent: "\<forall>e \<in> set (idb world_replace).
        id' e \<notin> c_id ` set [row_of entry_mon, row_of entry_sun] \<longrightarrow> e \<notin> set ms"
    by blast
  from i obtain a b where ms: "ms = [a, b]"
    by (cases ms; cases "tl ms") auto
  from i d m u t have "a = entry_mon" and "b = entry_sun"
    by (simp_all add: ms row_of_def entry_mon_def entry_sun_def)
  with ms have "ms = [entry_mon, entry_sun]" by simp
  with g absent loc other rows show ?thesis by auto
qed



section \<open>Deleting\<close>

text \<open>
  C9. With the local store usable, \<open>deleteMemory k\<close> removes the entries with id \<open>k\<close> from
  the local store, keeps the others and leaves the remote table as it is. An entry
  deleted this way that the remote table still holds comes back with the next
  \<open>getMemories\<close> whose select succeeds.
\<close>

theorem deleteMemory_local_only:
  assumes "idb_ok w"
  shows "\<exists>w'. deleteMemory k w = Inr w' \<and> cloud w' = cloud w \<and>
           idb w' = filter (\<lambda>m. id' m \<noteq> k) (idb w) \<and>
           (\<forall>e \<in> set (idb w).
              id' e = k \<and> e \<in> toMemory ` set (cloud w) \<and> supabaseAnonKey w \<noteq> [] \<longrightarrow>
              e \<notin> set (idb w') \<and> (\<exists>ms. getMemories Selected w' = Inr ms \<and> e \<in> set ms))"
proof -
  have "getMemories Selected (w\<lparr>idb := idb_delete k (idb w)\<rparr>) =
          Inr (map toMemory (cloud_select (cloud w)))"
    if "row \<in> set (cloud w)" and "supabaseAnonKey w \<noteq> []" for row
  proof -
    from that(1) have "cloud_select (cloud w) \<noteq> []"
      using set_cloud_select [of "cloud w"] by fastforce
    with that(2) show ?thesis
      by (simp add: getMemories_def getMemoriesFromCloud_def createClient_def)
  qed
  with assms show ?thesis
    by (auto simp: deleteMemory_def getDB_def idb_delete_def set_cloud_select)
qed

theorem deleteMemory_local_only_witness:
  "idb_ok world_partial \<and> memory_9 \<in> set (idb world_partial) \<and>
   memory_9 \<in> toMemory ` set (cloud world_partial) \<and> supabaseAnonKey world_partial \<noteq> [] \<and>
   (\<exists>w'. deleteMemory ''9'' world_partial = Inr w' \<and> cloud w' = cloud world_partial \<and>
      idb w' = [memory_10] \<and> getMemories Selected w' = Inr [memory_9])"
proof -
  have ok: "idb_ok world_partial" by (simp add: world_partial_def)
  have loc: "memory_9 \<in> set (idb world_partial)" by (simp add: world_partial_def)
  have rem: "memory_9 \<in> toMemory ` set (cloud world_partial)"
    by (simp add: world_partial_def toMemory_def row_of_def memory_9_def)
  have key: "supabaseAnonKey world_partial \<noteq> []" by (simp add: world_partial_def)
  from deleteMemory_local_only [OF ok, of "''9''"]
  obtain w' where d: "deleteMemory ''9'' world_partial = Inr w'"
    and c: "cloud w' = cloud world_partial"
    and i: "idb w' = filter (\<lambda>m. id' m \<noteq> ''9'') (idb world_partial)"
    by blast
  have i': "idb w' = [memory_10]"
    unfolding i by (simp add: world_partial_def memory_9_def memory_10_def)
  have "getMemories Selected w' = Inr [memory_9]"
    using d by (auto simp: deleteMemory_def getDB_def getMemories_def getMemoriesFromCloud_def
        createClient_def world_partial_def cloud_select_def toMemory_def row_of_def memory_9_def)
  with ok loc rem key d c i' show ?thesis by auto
qed

section \<open>Pushing the local store to the remote store\<close>

lemma sync_loop_count:
  "sync_loop net i ms r w = (r', w') \<Longrightarrow>
     synced r' = synced r + length (filter (\<lambda>j. push_succeeds w (net j)) [i..<i + length ms]) \<and>
     failed r' = failed r + length (filter (\<lambda>j. \<not> push_succeeds w (net j)) [i..<i + length ms]) \<and>
     idb_ok w' = idb_ok w \<and> idb w' = idb w \<and> supabaseAnonKey w' = supabaseAnonKey w"
proof (induction ms arbitrary: i r w)
  case Nil
  then show ?case by simp
next
  case (Cons m ms)
  obtain res w1 where sv: "saveMemoryToCloud (net i) m w = (res, w1)"
    by (cases "saveMemoryToCloud (net i) m w")
  note fr = saveMemoryToCloud_frame [OF sv]
  have ps: "push_succeeds w1 = push_succeeds w"
    using fr by (simp add: push_succeeds_def fun_eq_iff)
  have up: "[i..<i + length (m # ms)] = i # [Suc i..<Suc i + length ms]"
    by (simp add: upt_rec)
  show ?case
  proof (cases "push_succeeds w (net i)")
    case True
    with fr have "res = Inr True" by simp
    with Cons.prems sv
    have "sync_loop net (i + 1) ms (r\<lparr>synced := synced r + 1\<rparr>) w1 = (r', w')" by simp
    from Cons.IH [OF this] True fr show ?thesis
      unfolding up ps by simp
  next
    case False
    with fr have "res = Inr False \<or> res = Inl ImportFailure" by simp
    with Cons.prems sv
    have "sync_loop net (i + 1) ms (r\<lparr>failed := failed r + 1\<rparr>) w1 = (r', w')" by auto
    from Cons.IH [OF this] False fr show ?thesis
      unfolding up ps by simp
  qed
qed

text \<open>
  C7. With the local store usable, \<open>syncLocalToCloud\<close> returns counts for every content
  of the store and every pattern \<open>net\<close> of outcomes of the pushes (applied, answered with
  an error, thrown): \<open>synced\<close> is the number of entries whose push succeeded and \<open>failed\<close>
  the number of the others. No outcome of a push makes it raise.
\<close>

theorem syncLocalToCloud_never_raises:
  assumes "idb_ok w"
  shows "\<exists>r w'. syncLocalToCloud net w = Inr (r, w') \<and>
           synced r = length (filter (\<lambda>i. push_succeeds w (net i)) [0..<length (idb w)]) \<and>
           failed r = length (filter (\<lambda>i. \<not> push_succeeds w (net i)) [0..<length (idb w)])"
proof -
  obtain r w' where l: "sync_loop net 0 (idb w) \<lparr>synced = 0, failed = 0\<rparr> w = (r, w')"
    by (cases "sync_loop net 0 (idb w) \<lparr>synced = 0, failed = 0\<rparr> w")
  from sync_loop_count [OF l] assms l show ?thesis
    by (simp add: syncLocalToCloud_def getDB_def idb_getAll_def)
qed

theorem syncLocalToCloud_never_raises_witness:
  "idb_ok world_partial \<and>
   (\<exists>r w'. syncLocalToCloud (\<lambda>i. if i = 0 then UpsertThrows else Upserted) world_partial = Inr (r, w') \<and>
      synced r = 1 \<and> failed r = 1)"
proof -
  have ok: "idb_ok world_partial" by (simp add: world_partial_def)
  have len: "[0..<length (idb world_partial)] = [0, 1]"
    by (simp add: world_partial_def upt_rec)
  from syncLocalToCloud_never_raises [OF ok, of "\<lambda>i. if i = 0 then UpsertThrows else Upserted"]
  show ?thesis
    unfolding len using ok by (auto simp: push_succeeds_def world_partial_def)
qed

text \<open>
  C10. Whenever \<open>syncLocalToCloud\<close> returns, its two counts add up to the number of
  entries of the local store.
\<close>

theorem syncLocalToCloud_counts_add_up:
  assumes "syncLocalToCloud net w = Inr (r, w')"
  shows "synced r + failed r = length (idb w)"
proof -
  from assms have l: "sync_loop net 0 (idb w) \<lparr>synced = 0, failed = 0\<rparr> w = (r, w')"
    by (simp add: syncLocalToCloud_def getDB_def idb_getAll_def split: if_splits)
  have "length (filter P xs) + length (filter (\<lambda>x. \<not> P x) xs) = length xs"
    for P and xs :: "nat list"
    using sum_length_filter_compl [of P xs] by simp
  from sync_loop_count [OF l] this [of "\<lambda>j. push_succeeds w (net j)" "[0..<length (idb w)]"]
  show ?thesis by simp
qed

theorem syncLocalToCloud_counts_add_up_witness:
  "syncLocalToCloud (\<lambda>i. if i = 0 then Upserted else UpsertError) world_partial =
     Inr (\<lparr>synced = 1, failed = 1\<rparr>,
          world_partial\<lparr>cloud := [row_of memory_9, row_of memory_10]\<rparr>) \<and>
   synced \<lparr>synced = 1, failed = 1\<rparr> + failed \<lparr>synced = 1, failed = 1\<rparr> =
     length (idb world_partial) \<and>
   length (idb world_partial) = 2"
proof -
  have s: "syncLocalToCloud (\<lambda>i. if i = 0 then Upserted else UpsertError) world_partial =
     Inr (\<lparr>synced = 1, failed = 1\<rparr>,
          world_partial\<lparr>cloud := [row_of memory_9, row_of memory_10]\<rparr>)"
    by code_simp
  from syncLocalToCloud_counts_add_up [OF s] s show ?thesis
    by (simp add: world_partial_def)
qed

section \<open>CSV export\<close>

lemma scan_doubled:
  "csv_scan InQuotes fs cur (double_quotes s @ dquote # rest) =
     csv_scan AfterQuote fs (cur @ s) rest"
proof (induction s arbitrary: cur)
  case Nil
  show ?case by (simp add: double_quotes_def)
next
  case (Cons c s)
  have dq: "double_quotes (c # s) =
      (if c = dquote then [dquote, dquote] else [c]) @ double_quotes s"
    by (simp add: double_quotes_def)
  show ?case
    unfolding dq using Cons.IH [of "cur @ [dquote]"] Cons.IH [of "cur @ [c]"]
    by (cases "c = dquote") simp_all
qed

lemma scan_raw:
  "dquote \<notin> set s \<Longrightarrow>
     csv_scan InQuotes fs cur (s @ dquote # rest) = csv_scan AfterQuote fs (cur @ s) rest"
proof (induction s arbitrary: cur)
  case Nil
  show ?case by simp
next
  case (Cons c s)
  then have "c \<noteq> dquote" and "dquote \<notin> set s" by auto
  with Cons.IH [of "cur @ [c]"] show ?case by simp
qed

lemma comma_not_dquote: "CHR '','' \<noteq> dquote"
  by (simp add: dquote_def)

lemma dots_no_quote: "dquote \<notin> set ''...''"
  by (simp add: dquote_def)

lemma fields_mood: "csv_fields (mood_field m) = Some [mood m]"
  using scan_doubled [of "[]" "[]" "mood m" "[]"]
  by (simp add: csv_fields_def mood_field_def)

lemma fields_summary: "csv_fields (summary_field m) = Some [summary m]"
  using scan_doubled [of "[]" "[]" "summary m" "[]"]
  by (simp add: csv_fields_def summary_field_def)

lemma fields_row:
  assumes d: "dquote \<notin> set (date m)" and i: "dquote \<notin> set (take 100 (imageUrl m))"
  shows "csv_fields (csv_row m) = Some [date m, mood m, summary m, preview m]"
proof -
  have p: "dquote \<notin> set (preview m)"
    using i dots_no_quote by (simp add: preview_def)
  have row: "csv_row m =
      dquote # date m @ dquote # CHR '','' #
      dquote # double_quotes (mood m) @ dquote # CHR '','' #
      dquote # double_quotes (summary m) @ dquote # CHR '','' #
      dquote # preview m @ dquote # []"
    by (simp add: csv_row_def date_field_def mood_field_def summary_field_def image_field_def
        substring_0_100_def preview_def)
  show ?thesis
    unfolding csv_fields_def row
    by (simp add: scan_raw [OF d] scan_raw [OF p] scan_doubled comma_not_dquote)
qed

text \<open>
  C8, as stated, fails. The remote table holds a row whose image URL contains a double
  quote, and the select succeeds: the export has the header and one row, the row ends
  with the image field \<^verbatim>\<open>"https://img.test/a"b.png..."\<close>, in which the quote of the URL
  is not doubled, and the row does not read as four quoted fields.
\<close>

theorem exportMemoriesToCSV_image_quote_kept:
  "exportMemoriesToCSV Selected world_quote =
     Inr (Some (join [CHR 0x0A] [join '','' headers, csv_row (toMemory row_quote)])) \<and>
   image_field (toMemory row_quote) =
     [dquote] @ ''https://img.test/a'' @ [dquote] @ ''b.png...'' @ [dquote] \<and>
   csv_fields (csv_row (toMemory row_quote)) = None"
  by code_simp

text \<open>
  C8, amended. When \<open>exportMemoriesToCSV\<close> returns a text, the text is the lines joined
  by newlines: first the header \<^verbatim>\<open>Date,Mood,Summary,Image URL\<close>, then one row per entry
  that \<open>getMemories\<close> returned. In every row the mood and summary fields are wrapped in
  double quotes with the double quotes of the content doubled: each reads back as the
  mood, as the summary. The date field and the image field are wrapped in double quotes
  with nothing escaped, the image field holding the preview, which is the first 100
  characters of the image URL followed by three dots. A row whose date and preview hold
  no double quote reads as the four columns date, mood, summary, preview.
\<close>

theorem exportMemoriesToCSV_rows:
  assumes "exportMemoriesToCSV net w = Inr (Some csv)"
  shows "\<exists>memories. getMemories net w = Inr memories \<and> memories \<noteq> [] \<and>
           csv = join [CHR 0x0A] (''Date,Mood,Summary,Image URL'' # map csv_row memories) \<and>
           (\<forall>m \<in> set memories.
              csv_row m =
                date_field m @ '','' @ mood_field m @ '','' @ summary_field m @ '','' @
                image_field m \<and>
              csv_fields (mood_field m) = Some [mood m] \<and>
              csv_fields (summary_field m) = Some [summary m] \<and>
              date_field m = dquote # date m @ [dquote] \<and>
              image_field m = dquote # take 100 (imageUrl m) @ ''...'' @ [dquote] \<and>
              (dquote \<notin> set (date m) \<and> dquote \<notin> set (take 100 (imageUrl m)) \<longrightarrow>
                 csv_fields (csv_row m) =
                   Some [date m, mood m, summary m, take 100 (imageUrl m) @ ''...'']))"
proof -
  from assms obtain memories where g: "getMemories net w = Inr memories" and ne: "memories \<noteq> []"
    and c: "csv = join [CHR 0x0A] (csv_lines memories)"
    by (auto simp: exportMemoriesToCSV_def split: sum.splits if_splits)
  have h: "join '','' headers = ''Date,Mood,Summary,Image URL''"
    by (simp add: headers_def)
  have r: "csv_fields (csv_row m) = Some [date m, mood m, summary m, take 100 (imageUrl m) @ ''...'']"
    if "dquote \<notin> set (date m)" and "dquote \<notin> set (take 100 (imageUrl m))" for m
    using fields_row [OF that] by (simp add: preview_def)
  from g ne c h r show ?thesis
    by (simp add: csv_lines_def csv_row_def date_field_def image_field_def
        substring_0_100_def fields_mood fields_summary)
qed

text \<open>
  The instance: a key is set, the select throws, and the local store holds an entry
  written by the application, its mood typed with quotes, its image a data URL of 120
  characters.
\<close>

theorem exportMemoriesToCSV_rows_witness:
  "exportMemoriesToCSV SelectThrows world_said =
     Inr (Some (join [CHR 0x0A] [''Date,Mood,Summary,Image URL'', csv_row memory_said])) \<and>
   getMemories SelectThrows world_said = Inr [memory_said] \<and>
   mood_field memory_said =
     [dquote] @ ''so '' @ [dquote, dquote] @ ''fine'' @ [dquote, dquote] @ [dquote] \<and>
   dquote \<notin> set (date memory_said) \<and> dquote \<notin> set (take 100 (imageUrl memory_said)) \<and>
   csv_fields (csv_row memory_said) =
     Some [''Mar 30'', ''so '' @ [dquote] @ ''fine'' @ [dquote], ''A quiet moment.'',
           ''data:image/png;base64,'' @ replicate 78 (CHR ''A'') @ ''...'']"
proof -
  have e: "exportMemoriesToCSV SelectThrows world_said =
             Inr (Some (join [CHR 0x0A] [''Date,Mood,Summary,Image URL'', csv_row memory_said]))"
    by code_simp
  have g: "getMemories SelectThrows world_said = Inr [memory_said]"
    by code_simp
  have f: "mood_field memory_said =
     [dquote] @ ''so '' @ [dquote, dquote] @ ''fine'' @ [dquote, dquote] @ [dquote]"
    by code_simp
  have d: "dquote \<notin> set (date memory_said)"
    and i: "dquote \<notin> set (take 100 (imageUrl memory_said))"
    by code_simp+
  have v: "[date memory_said, mood memory_said, summary memory_said,
            take 100 (imageUrl memory_said) @ ''...''] =
     [''Mar 30'', ''so '' @ [dquote] @ ''fine'' @ [dquote], ''A quiet moment.'',
      ''data:image/png;base64,'' @ replicate 78 (CHR ''A'') @ ''...'']"
    by code_simp
  from exportMemoriesToCSV_rows [OF e] g d i
  have "csv_fields (csv_row memory_said) =
          Some [date memory_said, mood memory_said, summary memory_said,
                take 100 (imageUrl memory_said) @ ''...'']"
    by auto
  with e g f d i v show ?thesis by simp
qed

section \<open>The streak: what the loop sees of an entry\<close>

lemma streak_loop_Cons:
  "streak_loop z c p (q # rest) =
     (if num_eq (num_sub (midnight_of z p) (midnight_of z q)) (Some oneDay)
      then streak_loop z (c + 1) q rest
      else if num_eq (num_sub (midnight_of z p) (midnight_of z q)) (Some 0)
      then streak_loop z c q rest
      else c)"
  by (simp add: midnight_of_def instant_of_def Let_def)

declare streak_loop.simps(2) [simp del]

lemma calculateStreak_Cons:
  "calculateStreak z now (m # rest) =
     (if num_eq (midnight_of z m) (setHours0 z (Some now)) \<or>
         num_eq (midnight_of z m) (num_sub (setHours0 z (Some now)) (Some oneDay))
      then streak_loop z 1 m rest else 0)"
  by (simp add: calculateStreak_def midnight_of_def instant_of_def Let_def)

lemma midnight_of_instant:
  "instant_of m = Some t \<Longrightarrow> midnight_of z m = TimeClip (UTC z (localDay z t * msPerDay))"
  by (simp add: midnight_of_def setHours0_def localDay_def)

lemma instant_of_number:
  "instant_of m = Some t \<Longrightarrow> has_number m \<and> id_number m = t \<and> \<bar>t\<bar> \<le> 8640000000000000"
  by (auto simp: instant_of_def new_Date_def TimeClip_def has_number_def id_number_def
      split: option.splits if_splits)

lemma never_back_berlin: "days_never_go_back berlin_2026"
  unfolding days_never_go_back_def localDay_def Day_def LocalTime_def
  by (auto simp: berlin_2026_def msPerDay_def intro!: zdiv_mono1)

lemma within_day_berlin: "offsets_within_a_day berlin_2026"
  by (simp add: offsets_within_a_day_def berlin_2026_def msPerDay_def)

lemma never_back_fixed: "days_never_go_back (fixed_zone off)"
  unfolding days_never_go_back_def localDay_def Day_def LocalTime_def
  by (auto simp: fixed_zone_def msPerDay_def intro!: zdiv_mono1)

lemma within_day_fixed: "offsets_within_a_day (fixed_zone off)"
  by (simp add: offsets_within_a_day_def fixed_zone_def msPerDay_def)

section \<open>The streak of a stale list\<close>

text \<open>
  C5. In a zone whose offset never moves by a day or more: when the newest entry has a
  valid date on a calendar day before yesterday, \<open>calculateStreak\<close> returns 0, whatever
  the older entries are (and whether or not they are sorted).
\<close>

theorem calculateStreak_stale:
  assumes spread: "offsets_within_a_day z"
    and inst: "instant_of m = Some t"
    and old: "localDay z t < localDay z now - 1"
  shows "calculateStreak z now (m # rest) = 0"
proof -
  define d where "d = localDay z now"
  define d' where "d' = localDay z t"
  define lo where "lo = LocalTZA_local z"
  have today: "setHours0 z (Some now) = TimeClip (d * msPerDay - lo (d * msPerDay))"
    by (simp add: setHours0_def localDay_def UTC_def d_def lo_def)
  have latest: "midnight_of z m = TimeClip (d' * msPerDay - lo (d' * msPerDay))"
    by (simp add: midnight_of_instant [OF inst] UTC_def d'_def lo_def)
  from spread have "lo (d * msPerDay) - lo (d' * msPerDay) < msPerDay"
    by (simp add: offsets_within_a_day_def lo_def)
  moreover from old have "d' + 2 \<le> d" by (simp add: d_def d'_def)
  then have "d' * msPerDay + 2 * msPerDay \<le> d * msPerDay"
    by (simp add: msPerDay_def)
  ultimately have far:
    "d' * msPerDay - lo (d' * msPerDay) < d * msPerDay - lo (d * msPerDay) - msPerDay"
    by simp
  have "\<not> num_eq (midnight_of z m) (setHours0 z (Some now))"
    and "\<not> num_eq (midnight_of z m) (num_sub (setHours0 z (Some now)) (Some oneDay))"
    using far unfolding today latest
    by (auto simp: num_eq_def num_sub_def TimeClip_def oneDay_def msPerDay_def
        split: option.splits if_splits)
  then show ?thesis
    by (simp add: calculateStreak_Cons)
qed

text \<open>
  The instance: Central European time, 30 March 2026, 10:00; the newest entry is of
  28 March, 12:00.
\<close>

theorem calculateStreak_stale_witness:
  "offsets_within_a_day berlin_2026 \<and>
   instant_of (entry ''1774695600000'') = Some 1774695600000 \<and>
   localDay berlin_2026 1774695600000 < localDay berlin_2026 1774857600000 - 1 \<and>
   calculateStreak berlin_2026 1774857600000
     [entry ''1774695600000'', entry ''1774609200000''] = 0"
proof -
  have i: "instant_of (entry ''1774695600000'') = Some 1774695600000"
    by code_simp
  have o: "localDay berlin_2026 1774695600000 < localDay berlin_2026 1774857600000 - 1"
    by code_simp
  from calculateStreak_stale [OF within_day_berlin i o] within_day_berlin i o
  show ?thesis by simp
qed

section \<open>The streak and a second entry on a day\<close>

lemma streak_loop_prev:
  "midnight_of z a = midnight_of z b \<Longrightarrow> streak_loop z c a ms = streak_loop z c b ms"
  by (cases ms) (simp_all add: streak_loop_Cons)

lemma streak_loop_skip:
  assumes "midnight_of z p = midnight_of z y"
  shows "streak_loop z c p (y # post) = streak_loop z c p post"
proof (cases "midnight_of z p")
  case None
  have "midnight_of z y = None"
    unfolding assms [symmetric] by (rule None)
  with None show ?thesis
    by (cases post) (simp_all add: streak_loop_Cons num_sub_def num_eq_def)
next
  case (Some v)
  have "midnight_of z y = Some v"
    unfolding assms [symmetric] by (rule Some)
  with Some have "streak_loop z c p (y # post) = streak_loop z c y post"
    by (simp add: streak_loop_Cons num_sub_def num_eq_def oneDay_def)
  also have "\<dots> = streak_loop z c p post"
    by (rule streak_loop_prev [OF assms [symmetric]])
  finally show ?thesis .
qed

lemma streak_loop_after:
  assumes "midnight_of z p = midnight_of z y"
  shows "streak_loop z c r (p # y # post) = streak_loop z c r (p # post)"
  by (simp add: streak_loop_Cons [of z c r] streak_loop_skip [OF assms])

lemma streak_loop_before:
  assumes "midnight_of z y = midnight_of z q"
  shows "streak_loop z c r (y # q # post) = streak_loop z c r (q # post)"
proof -
  have "streak_loop z k y (q # post) = streak_loop z k q post" for k
    using streak_loop_skip [OF assms, of k post] streak_loop_prev [OF assms, of k post] by simp
  then show ?thesis
    by (simp add: streak_loop_Cons [of z c r] assms)
qed

lemma streak_loop_prefix:
  assumes "\<And>c r. streak_loop z c r A = streak_loop z c r B"
  shows "streak_loop z c r (pre @ A) = streak_loop z c r (pre @ B)"
proof (induction pre arbitrary: c r)
  case Nil
  show ?case by (simp add: assms)
next
  case (Cons a pre)
  show ?case by (simp add: streak_loop_Cons Cons.IH)
qed

lemma calculateStreak_insert_after:
  assumes "midnight_of z p = midnight_of z y"
  shows "calculateStreak z now (pre @ p # y # post) = calculateStreak z now (pre @ p # post)"
proof (cases pre)
  case Nil
  then show ?thesis
    by (simp add: calculateStreak_Cons streak_loop_skip [OF assms])
next
  case (Cons a pre')
  then show ?thesis
    by (simp add: calculateStreak_Cons streak_loop_prefix [OF streak_loop_after [OF assms]])
qed

lemma calculateStreak_insert_before:
  assumes "midnight_of z y = midnight_of z q"
  shows "calculateStreak z now (pre @ y # q # post) = calculateStreak z now (pre @ q # post)"
proof (cases pre)
  case Nil
  have "streak_loop z k y (q # post) = streak_loop z k q post" for k
    using streak_loop_skip [OF assms, of k post] streak_loop_prev [OF assms, of k post] by simp
  with Nil show ?thesis
    by (simp add: calculateStreak_Cons assms)
next
  case (Cons a pre')
  then show ?thesis
    by (simp add: calculateStreak_Cons streak_loop_prefix [OF streak_loop_before [OF assms]])
qed

lemma instant_of_between:
  assumes "instant_of a = Some s" and "instant_of b = Some t"
    and "has_number m" and "id_number b \<le> id_number m" and "id_number m \<le> id_number a"
  shows "instant_of m = Some (id_number m)"
proof -
  from instant_of_number [OF assms(1)] instant_of_number [OF assms(2)] assms(4,5)
  have "\<bar>id_number m\<bar> \<le> 8640000000000000" by (simp add: abs_le_iff)
  with assms(3) show ?thesis
    by (auto simp: instant_of_def new_Date_def TimeClip_def has_number_def id_number_def)
qed

text \<open>An entry whose id lies between the ids of two entries of one day is on that day.\<close>

lemma same_day_between:
  assumes mono: "days_never_go_back z" and sd: "same_day z a b"
    and m: "has_number m" and lo: "id_number b \<le> id_number m" and hi: "id_number m \<le> id_number a"
  shows "midnight_of z m = midnight_of z a" and "midnight_of z m = midnight_of z b"
proof -
  from sd obtain s t where a: "instant_of a = Some s" and b: "instant_of b = Some t"
    and eq: "localDay z s = localDay z t"
    by (auto simp: same_day_def split: option.splits)
  from instant_of_number [OF a] instant_of_number [OF b]
  have ids: "id_number a = s" "id_number b = t" by simp_all
  have im: "instant_of m = Some (id_number m)"
    using instant_of_between [OF a b m lo hi] .
  from mono lo hi ids have "localDay z t \<le> localDay z (id_number m)"
    and "localDay z (id_number m) \<le> localDay z s"
    by (auto simp: days_never_go_back_def)
  with eq have "localDay z (id_number m) = localDay z t" by simp
  with eq show "midnight_of z m = midnight_of z a" and "midnight_of z m = midnight_of z b"
    by (simp_all add: midnight_of_instant [OF im] midnight_of_instant [OF a]
        midnight_of_instant [OF b])
qed

lemma same_day_sym: "same_day z a b \<Longrightarrow> same_day z b a"
  by (auto simp: same_day_def split: option.splits)

text \<open>
  C6. In a zone where the calendar never runs backwards: take a list of entries and an
  entry \<open>y\<close> placed in it so that the ids are numbers in descending order, \<open>y\<close> being on
  the calendar day of some other entry of the list. The streak with \<open>y\<close> is the streak
  without it.
\<close>

theorem calculateStreak_same_day_insert:
  assumes mono: "days_never_go_back z"
    and desc: "ids_descending (pre @ y # post)"
    and ex: "\<exists>x \<in> set (pre @ post). same_day z x y"
  shows "calculateStreak z now (pre @ y # post) = calculateStreak z now (pre @ post)"
proof -
  from desc have nums: "\<forall>m \<in> set (pre @ y # post). has_number m"
    and above: "\<forall>a \<in> set pre. id_number y \<le> id_number a"
    and below: "\<forall>b \<in> set post. id_number b \<le> id_number y"
    and spre: "sorted_wrt (\<lambda>a b. id_number b \<le> id_number a) pre"
    and spost: "sorted_wrt (\<lambda>a b. id_number b \<le> id_number a) post"
    by (auto simp: ids_descending_def list_all_iff sorted_wrt_append)
  from ex obtain x where x: "x \<in> set (pre @ post)" and sd: "same_day z x y" by blast
  from x consider "x \<in> set pre" | "x \<in> set post" by auto
  then show ?thesis
  proof cases
    case 1
    then have "pre \<noteq> []" by auto
    then obtain pre' p where pre: "pre = pre' @ [p]"
      by (metis rev_exhaust)
    from spre 1 have "id_number p \<le> id_number x"
      by (auto simp: pre sorted_wrt_append)
    moreover from above have "id_number y \<le> id_number p" by (simp add: pre)
    moreover from nums have "has_number p" by (simp add: pre)
    ultimately have "midnight_of z p = midnight_of z y"
      using same_day_between(2) [OF mono sd] by simp
    from calculateStreak_insert_after [OF this, of now pre' post] show ?thesis
      by (simp add: pre)
  next
    case 2
    then obtain q post' where post: "post = q # post'"
      by (cases post) auto
    from spost 2 have "id_number x \<le> id_number q"
      by (auto simp: post)
    moreover from below have "id_number q \<le> id_number y" by (simp add: post)
    moreover from nums have "has_number q" by (simp add: post)
    ultimately have "midnight_of z q = midnight_of z y"
      using same_day_between(1) [OF mono same_day_sym [OF sd]] by simp
    from calculateStreak_insert_before [OF this [symmetric], of now pre post'] show ?thesis
      by (simp add: post)
  qed
qed

text \<open>
  The instance: Central European time, 28 March 2026, 20:00; entries of 28 March 12:00,
  27 March 12:00 and 26 March 12:00, and a second entry of 27 March, 08:00. The streak
  is 3 with it and without it.
\<close>

theorem calculateStreak_same_day_insert_witness:
  "days_never_go_back berlin_2026 \<and>
   ids_descending
     [entry ''1774695600000'', entry ''1774609200000'', entry ''1774594800000'',
      entry ''1774522800000''] \<and>
   same_day berlin_2026 (entry ''1774609200000'') (entry ''1774594800000'') \<and>
   calculateStreak berlin_2026 1774724400000
     [entry ''1774695600000'', entry ''1774609200000'', entry ''1774594800000'',
      entry ''1774522800000''] = 3 \<and>
   calculateStreak berlin_2026 1774724400000
     [entry ''1774695600000'', entry ''1774609200000'', entry ''1774522800000''] = 3"
proof -
  have d: "ids_descending
     ([entry ''1774695600000'', entry ''1774609200000''] @ entry ''1774594800000'' #
      [entry ''1774522800000''])"
    by code_simp
  have s: "same_day berlin_2026 (entry ''1774609200000'') (entry ''1774594800000'')"
    by code_simp
  then have e: "\<exists>x \<in> set ([entry ''1774695600000'', entry ''1774609200000''] @
      [entry ''1774522800000'']). same_day berlin_2026 x (entry ''1774594800000'')"
    by simp
  have v: "calculateStreak berlin_2026 1774724400000
     [entry ''1774695600000'', entry ''1774609200000'', entry ''1774522800000''] = 3"
    by code_simp
  from calculateStreak_same_day_insert [OF never_back_berlin d e, of 1774724400000] v
    never_back_berlin d s
  show ?thesis by simp
qed

section \<open>The streak in a zone with a fixed offset\<close>

text \<open>
  With one offset at all times, the local midnights of consecutive days are exactly
  \<open>oneDay\<close> apart, and the streak is the number of calendar days of the run that starts
  today.
\<close>

lemma digits_value_nonneg: "0 \<le> acc \<Longrightarrow> digits_value acc s = Some n \<Longrightarrow> 0 \<le> n"
proof (induction s arbitrary: acc)
  case Nil
  then show ?case by simp
next
  case (Cons c s)
  from Cons.prems(2) have d: "is_digit c" and r: "digits_value (10 * acc + digit_value c) s = Some n"
    by (auto split: if_splits)
  from d have "0 \<le> digit_value c" by (simp add: is_digit_def digit_value_def)
  with Cons.prems(1) have "0 \<le> 10 * acc + digit_value c" by simp
  from Cons.IH [OF this r] show ?case .
qed

lemma instant_of_range: "instant_of m = Some t \<Longrightarrow> 0 \<le> t \<and> t \<le> 8640000000000000"
  using digits_value_nonneg [of 0 "id' m" t]
  by (auto simp: instant_of_def new_Date_def TimeClip_def Number_of_def
      split: option.splits if_splits)

lemma setHours0_fixed:
  assumes "0 \<le> t" and "t \<le> 8640000000000000"
  shows "setHours0 (fixed_zone off) (Some t) =
           Some (localDay (fixed_zone off) t * msPerDay - off)"
proof -
  define d where "d = (t + off) div msPerDay"
  have "d * msPerDay \<le> t + off" and "t + off < d * msPerDay + msPerDay"
    unfolding d_def msPerDay_def by (simp_all add: pos_mod_bound)
  with assms have "\<bar>d * msPerDay - off\<bar> \<le> 8640000000000000"
    by (simp add: abs_le_iff msPerDay_def)
  then show ?thesis
    by (simp add: setHours0_def TimeClip_def UTC_def LocalTime_def Day_def localDay_def
        fixed_zone_def d_def)
qed

lemma midnight_of_fixed:
  "instant_of m = Some t \<Longrightarrow>
     midnight_of (fixed_zone off) m = Some (localDay (fixed_zone off) t * msPerDay - off)"
  using instant_of_range [of m t] by (simp add: midnight_of_def setHours0_fixed)

lemma today_fixed:
  assumes "instant_of m = Some t" and "localDay (fixed_zone off) t = localDay (fixed_zone off) now"
  shows "setHours0 (fixed_zone off) (Some now) = midnight_of (fixed_zone off) m"
proof -
  have "setHours0 (fixed_zone off) (Some now) = setHours0 (fixed_zone off) (Some t)"
    using assms(2) by (simp add: setHours0_def localDay_def)
  then show ?thesis by (simp add: midnight_of_def assms(1))
qed

lemma run_last_day_le: "run_last_day z d ms = Some dl \<Longrightarrow> dl \<le> d"
proof (induction ms arbitrary: d)
  case Nil
  then show ?case by simp
next
  case (Cons m ms)
  then obtain t where t: "instant_of m = Some t"
    and c: "localDay z t = d \<or> localDay z t = d - 1"
    and r: "run_last_day z (localDay z t) ms = Some dl"
    by (auto split: option.splits if_splits)
  from Cons.IH [OF r] c show ?case by auto
qed

lemma streak_loop_fixed_run:
  assumes "instant_of p = Some tp" and "localDay (fixed_zone off) tp = d"
    and "run_last_day (fixed_zone off) d run = Some dl" and "gap_after (fixed_zone off) dl rest"
  shows "streak_loop (fixed_zone off) c p (run @ rest) = c + nat (d - dl)"
  using assms
proof (induction run arbitrary: c p tp d)
  case Nil
  then have dl: "dl = d" by simp
  show ?case
  proof (cases rest)
    case Nil
    then show ?thesis by (simp add: dl)
  next
    case (Cons g rest')
    show ?thesis
    proof (cases "instant_of g")
      case None
      then have "midnight_of (fixed_zone off) g = None"
        by (simp add: midnight_of_def setHours0_def)
      with Cons show ?thesis
        by (simp add: dl streak_loop_Cons num_sub_def num_eq_def split: option.splits)
    next
      case (Some t)
      with Nil.prems(4) Cons have "localDay (fixed_zone off) t + 2 \<le> d"
        by (simp add: gap_after_def dl)
      then have "d * msPerDay - localDay (fixed_zone off) t * msPerDay \<ge> 2 * msPerDay"
        by (simp add: msPerDay_def)
      with Cons Nil.prems(1,2) Some show ?thesis
        by (simp add: dl streak_loop_Cons midnight_of_fixed num_sub_def num_eq_def
            oneDay_def msPerDay_def)
    qed
  qed
next
  case (Cons m run)
  from Cons.prems(3) obtain t where t: "instant_of m = Some t"
    and c: "localDay (fixed_zone off) t = d \<or> localDay (fixed_zone off) t = d - 1"
    and r: "run_last_day (fixed_zone off) (localDay (fixed_zone off) t) run = Some dl"
    by (auto split: option.splits if_splits)
  note IH = Cons.IH [OF t refl r Cons.prems(4)]
  from run_last_day_le [OF r] have le: "dl \<le> localDay (fixed_zone off) t" .
  from c show ?case
  proof
    assume same: "localDay (fixed_zone off) t = d"
    with Cons.prems(1,2) t IH show ?thesis
      by (simp add: streak_loop_Cons midnight_of_fixed num_sub_def num_eq_def oneDay_def)
  next
    assume prev: "localDay (fixed_zone off) t = d - 1"
    then have "d * msPerDay - off - (localDay (fixed_zone off) t * msPerDay - off) = oneDay"
      by (simp add: msPerDay_def oneDay_def)
    with Cons.prems(1,2) t have
      "streak_loop (fixed_zone off) c p ((m # run) @ rest) =
         streak_loop (fixed_zone off) (c + 1) m (run @ rest)"
      by (simp add: streak_loop_Cons midnight_of_fixed num_sub_def num_eq_def)
    with IH [of "c + 1"] prev le show ?thesis
      by (simp add: nat_diff_distrib')
  qed
qed

text \<open>
  The newest entry is of today; the entries after it form a run, each on the day of the
  one before or on the day before that, down to the day \<open>dl\<close>; then the list ends or
  skips at least one day. The streak is the number of days from \<open>dl\<close> to today.
\<close>

lemma calculateStreak_fixed_run:
  assumes "instant_of m0 = Some t0"
    and "localDay (fixed_zone off) t0 = localDay (fixed_zone off) now"
    and "run_last_day (fixed_zone off) (localDay (fixed_zone off) now) run = Some dl"
    and "gap_after (fixed_zone off) dl rest"
  shows "calculateStreak (fixed_zone off) now (m0 # run @ rest) =
           nat (localDay (fixed_zone off) now - dl) + 1"
proof -
  have "num_eq (midnight_of (fixed_zone off) m0) (setHours0 (fixed_zone off) (Some now))"
    by (simp add: today_fixed [OF assms(1,2)] midnight_of_fixed [OF assms(1)] num_eq_def)
  with streak_loop_fixed_run [OF assms(1) assms(2) assms(3) assms(4), of 1]
  show ?thesis by (simp add: calculateStreak_Cons)
qed

text \<open>Entries on today, yesterday, the day before, and so on: the streak is their number.\<close>

lemma consecutive_days_run:
  "consecutive_days z (d - 1) ms \<Longrightarrow> run_last_day z d ms = Some (d - int (length ms))"
proof (induction ms arbitrary: d)
  case Nil
  then show ?case by simp
next
  case (Cons m ms)
  then obtain t where t: "instant_of m = Some t" and d: "localDay z t = d - 1"
    and r: "consecutive_days z (d - 1 - 1) ms"
    by (auto split: option.splits)
  from Cons.IH [OF r] t d show ?case by simp
qed

lemma calculateStreak_fixed_consecutive:
  assumes "consecutive_days (fixed_zone off) (localDay (fixed_zone off) now) ms"
  shows "calculateStreak (fixed_zone off) now ms = length ms"
proof (cases ms)
  case Nil
  then show ?thesis by (simp add: calculateStreak_def)
next
  case (Cons m0 run)
  with assms obtain t0 where t0: "instant_of m0 = Some t0"
    and d0: "localDay (fixed_zone off) t0 = localDay (fixed_zone off) now"
    and r: "consecutive_days (fixed_zone off) (localDay (fixed_zone off) now - 1) run"
    by (auto split: option.splits)
  have g: "gap_after (fixed_zone off) (localDay (fixed_zone off) now - int (length run)) []"
    by (simp add: gap_after_def)
  from calculateStreak_fixed_run [OF t0 d0 consecutive_days_run [OF r] g] Cons
  show ?thesis by simp
qed

text \<open>The entries of 30, 29, 29 and 27 March 2026 again, the zone fixed at UTC+1: 2.\<close>

lemma calculateStreak_gap_example_fixed:
  "calculateStreak (fixed_zone 3600000) 1774857600000
     [entry ''1774854000000'', entry ''1774778400000'', entry ''1774764000000'',
      entry ''1774609200000''] = 2"
  by code_simp

end
